theory Spec2Isabelle
  imports Main
begin

section \<open>The greeting application: App.tsx and src/components/Greeting.tsx\<close>

text \<open>
  The application has two function components. \<open>App\<close> returns a container view holding
  one \<open>Greeting\<close> element with literal props; \<open>Greeting\<close> reads the calendar year from a
  fresh \<open>Date\<close>, subtracts the \<open>birthYear\<close> prop and returns a view of three text nodes.

  Numbers. The props interface types \<open>birthYear\<close> as \<open>number\<close>, a binary64 value, and the
  specification calls it an integer. An \<open>int\<close> of this theory stands for the number with
  that integer value; \<open>is_number\<close> tells which integers are such values. Arithmetic on
  them rounds as the host does (\<open>to_number\<close>, \<open>subtract\<close>) and they are printed as the
  host prints them (\<open>number_to_string\<close>). Numbers with a fractional part, the infinities
  and NaN are outside the specification's input type and have no counterpart here.
\<close>

subsection \<open>Host values: the clock\<close>

text \<open>
  A \<open>Date\<close> is observed through its local-time getters. \<open>new Date()\<close> is a reading of the
  system clock; the component receives that reading as an argument, so that two render
  passes at different instants are two different \<open>Date\<close> values.
\<close>

record Date =
  getFullYear :: int
  getMonth :: nat
  getDate :: nat
  getHours :: nat
  getMinutes :: nat
  getSeconds :: nat
  getMilliseconds :: nat

subsection \<open>Host values: numbers\<close>

text \<open>
  A binary64 value carries 53 significant bits. \<open>round_nat\<close> rounds a natural number to
  the nearest one that fits, ties going to the even significand; \<open>to_number\<close> does so
  on both sides of zero. A number is an integer that rounding leaves alone and that lies
  below \<open>2 ^ 1024\<close>, the bound of the exponent range.
\<close>

fun bit_length :: "nat \<Rightarrow> nat" where
  "bit_length n = (if n = 0 then 0 else Suc (bit_length (n div 2)))"

declare bit_length.simps [simp del]

definition round_nat :: "nat \<Rightarrow> nat" where
  "round_nat x =
     (if bit_length x \<le> 53 then x
      else let e = bit_length x - 53; q = x div 2 ^ e; r = x mod 2 ^ e; half = 2 ^ (e - 1)
           in (if half < r then q + 1
               else if r = half then (if q mod 2 = 1 then q + 1 else q)
               else q) * 2 ^ e)"

definition to_number :: "int \<Rightarrow> int" where
  "to_number i = (if i < 0 then - int (round_nat (nat (- i))) else int (round_nat (nat i)))"

definition is_number :: "int \<Rightarrow> bool" where
  "is_number i = (to_number i = i \<and> \<bar>i\<bar> < 2 ^ 1024)"

definition subtract :: "int \<Rightarrow> int \<Rightarrow> int" where
  "subtract a b = to_number (a - b)"

subsection \<open>Host values: printing a number\<close>

text \<open>
  The host prints a number \<open>x > 0\<close> from integers \<open>n\<close>, \<open>k\<close>, \<open>s\<close> with \<open>s\<close> of \<open>k\<close> digits
  and \<open>s * 10 ^ (n - k)\<close> rounding to \<open>x\<close>, where \<open>k\<close> is as small as possible and, among
  several \<open>s\<close>, the one nearest to \<open>x\<close> is taken (the even one on a tie). Up to \<open>n = 21\<close>
  it writes the digits of \<open>s\<close> and \<open>n - k\<close> zeros; from \<open>n = 22\<close> on it writes a mantissa
  and \<open>e+\<close> with the exponent \<open>n - 1\<close>.

  For an integer \<open>x\<close> of \<open>d\<close> decimal digits either \<open>10 ^ d\<close> itself rounds to \<open>x\<close>
  (then \<open>s = 1\<close>, \<open>k = 1\<close>, \<open>n = d + 1\<close>), or \<open>n = d\<close> and the candidates with \<open>k\<close> digits
  are the two multiples of \<open>10 ^ (d - k)\<close> around \<open>x\<close>; \<open>shortest\<close> tries them with the
  fewest digits first.
\<close>

definition digit_char :: "nat \<Rightarrow> char" where
  "digit_char d = ''0123456789'' ! d"

fun digits :: "nat \<Rightarrow> string" where
  "digits n = (if n < 10 then [digit_char n] else digits (n div 10) @ [digit_char (n mod 10)])"

declare digits.simps [simp del]

fun shortest :: "nat \<Rightarrow> nat \<Rightarrow> nat \<times> nat" where
  "shortest x 0 = (x, 0)"
| "shortest x (Suc j) =
     (let p = 10 ^ Suc j; lo = x div p; hi = lo + 1;
          lo_ok = (round_nat (lo * p) = x); hi_ok = (round_nat (hi * p) = x)
      in if lo_ok \<and> hi_ok then
           (if x - lo * p < hi * p - x then (lo, Suc j)
            else if hi * p - x < x - lo * p then (hi, Suc j)
            else if lo mod 2 = 0 then (lo, Suc j)
            else (hi, Suc j))
         else if lo_ok then (lo, Suc j)
         else if hi_ok then (hi, Suc j)
         else shortest x j)"

declare shortest.simps [simp del]

definition format_digits :: "string \<Rightarrow> nat \<Rightarrow> string" where
  "format_digits ds n =
     (if n \<le> 21 then ds @ replicate (n - length ds) (CHR ''0'')
      else (if length ds = 1 then ds else hd ds # CHR ''.'' # tl ds) @ ''e+'' @ digits (n - 1))"

definition nat_to_string :: "nat \<Rightarrow> string" where
  "nat_to_string x =
     (let d = length (digits x)
      in if round_nat (10 ^ d) = x then format_digits ''1'' (Suc d)
         else format_digits (digits (fst (shortest x (d - 1)))) d)"

definition number_to_string :: "int \<Rightarrow> string" where
  "number_to_string i =
     (if i < 0 then CHR ''-'' # nat_to_string (nat (- i)) else nat_to_string (nat i))"

subsection \<open>Reading a line of text\<close>

text \<open>
  What a reader takes from a rendered line: its words (the runs between blanks) and the
  integer a decimal numeral stands for. \<open>decimal\<close> writes an integer out in full.
\<close>

definition decimal :: "int \<Rightarrow> string" where
  "decimal i = (if i < 0 then CHR ''-'' # digits (nat (- i)) else digits (nat i))"

definition digit_value :: "char \<Rightarrow> nat" where
  "digit_value c = of_char c - 48"

definition digits_value :: "string \<Rightarrow> nat" where
  "digits_value s = foldl (\<lambda>n c. 10 * n + digit_value c) 0 s"

definition decimal_value :: "string \<Rightarrow> int" where
  "decimal_value s =
     (case s of
        [] \<Rightarrow> 0
      | c # cs \<Rightarrow> if c = CHR ''-'' then - int (digits_value cs) else int (digits_value s))"

fun split_blank :: "string \<Rightarrow> string \<Rightarrow> string list" where
  "split_blank w [] = [w]"
| "split_blank w (c # cs) =
     (if c = CHR '' '' then w # split_blank [] cs else split_blank (w @ [c]) cs)"

definition words :: "string \<Rightarrow> string list" where
  "words s = split_blank [] s"

subsection \<open>Style sheets\<close>

datatype style_value = Px int | Colour string | Weight string | Align string

type_synonym style = "(string \<times> style_value) list"

definition wrapper :: style where
  "wrapper = [(''paddingHorizontal'', Px 10)]"

definition textStyle :: style where
  "textStyle = [(''fontSize'', Px 42), (''color'', Colour ''#ffffff''), (''fontWeight'', Weight ''900'')]"

definition ageTextStyle :: style where
  "ageTextStyle = [(''marginTop'', Px 20), (''fontSize'', Px 18), (''fontWeight'', Weight ''600'')]"

definition container :: style where
  "container = [(''flex'', Px 1), (''backgroundColor'', Colour ''#2C7687''),
                (''alignItems'', Align ''center''), (''justifyContent'', Align ''center'')]"

subsection \<open>Elements\<close>

record GreetingProps =
  name :: string
  birthYear :: int

text \<open>
  The children of a text node are string literals and embedded expressions; an embedded
  number stays a number in the element and is printed only when the text is laid out.
  A \<open>style\<close> prop is one style or an array of styles; both are a list here.
\<close>

datatype child = Str string | Num int

datatype element =
    View "style list" "element list"
  | Text "style list" "child list"
  | StatusBar string
  | GreetingElement GreetingProps

subsection \<open>Greeting\<close>

definition Greeting :: "Date \<Rightarrow> GreetingProps \<Rightarrow> element" where
  "Greeting now props =
     (let currentYear = getFullYear now;
          age = subtract currentYear (birthYear props)
      in View [wrapper]
           [Text [textStyle] [Str ''Hello, '', Str (name props)],
            Text [textStyle] [Str ''Nice to meet you!''],
            Text [textStyle, ageTextStyle]
              [Str ''Now '', Num currentYear, Str '' and you become '', Num age,
               Str '' years old.'']])"

subsection \<open>App\<close>

definition App :: element where
  "App = View [container]
           [GreetingElement \<lparr>name = ''Jane'', birthYear = 1995\<rparr>, StatusBar ''light'']"

subsection \<open>A render pass\<close>

text \<open>
  One render pass calls every function component met in the tree, each with the clock
  reading of that pass. \<open>text_lines\<close> is what the pass puts on screen: the flattened
  content of every text node, top to bottom.
\<close>

fun render :: "Date \<Rightarrow> element \<Rightarrow> element" where
  "render now (View st es) = View st (map (render now) es)"
| "render now (Text st cs) = Text st cs"
| "render now (StatusBar s) = StatusBar s"
| "render now (GreetingElement props) = Greeting now props"

fun child_text :: "child \<Rightarrow> string" where
  "child_text (Str s) = s"
| "child_text (Num i) = number_to_string i"

fun text_lines :: "element \<Rightarrow> string list" where
  "text_lines (View st es) = concat (map text_lines es)"
| "text_lines (Text st cs) = [concat (map child_text cs)]"
| "text_lines (StatusBar s) = []"
| "text_lines (GreetingElement props) = []"

text \<open>The numbers embedded in the text nodes, and the props handed to \<open>Greeting\<close>.\<close>

fun child_numbers :: "child list \<Rightarrow> int list" where
  "child_numbers [] = []"
| "child_numbers (Str s # cs) = child_numbers cs"
| "child_numbers (Num i # cs) = i # child_numbers cs"

fun numbers :: "element \<Rightarrow> int list list" where
  "numbers (View st es) = concat (map numbers es)"
| "numbers (Text st cs) = [child_numbers cs]"
| "numbers (StatusBar s) = []"
| "numbers (GreetingElement props) = []"

fun greeting_inputs :: "element \<Rightarrow> GreetingProps list" where
  "greeting_inputs (View st es) = concat (map greeting_inputs es)"
| "greeting_inputs (Text st cs) = []"
| "greeting_inputs (StatusBar s) = []"
| "greeting_inputs (GreetingElement props) = [props]"

section \<open>Rounding\<close>

text \<open>
  The bit length brackets a number between two powers of two. Below \<open>2 ^ 53\<close> rounding
  changes nothing; from \<open>2 ^ 53\<close> on the rounded value stays at or above \<open>2 ^ 53\<close>, so
  it can never fall back onto a smaller number.
\<close>

lemma bit_length_0: "bit_length 0 = 0"
  by (subst bit_length.simps) simp

lemma bit_length_pos: "0 < n \<Longrightarrow> bit_length n = Suc (bit_length (n div 2))"
  by (subst bit_length.simps) simp

lemma bit_length_upper: "n < 2 ^ bit_length n"
proof (induction n rule: bit_length.induct)
  case (1 n)
  show ?case
  proof (cases "n = 0")
    case True
    then show ?thesis by (simp add: bit_length_0)
  next
    case False
    with 1 have "n div 2 < 2 ^ bit_length (n div 2)" by simp
    then have "n < 2 * 2 ^ bit_length (n div 2)" by arith
    with False show ?thesis by (simp add: bit_length_pos)
  qed
qed

lemma bit_length_lower: "0 < n \<Longrightarrow> 2 ^ (bit_length n - 1) \<le> n"
proof (induction n rule: bit_length.induct)
  case (1 n)
  show ?case
  proof (cases "n div 2 = 0")
    case True
    with 1(2) have "n = 1" by arith
    then show ?thesis by (simp add: bit_length_pos bit_length_0)
  next
    case False
    with 1 have ih: "2 ^ (bit_length (n div 2) - 1) \<le> n div 2" by simp
    from False have "bit_length (n div 2) = Suc (bit_length (n div 2) - 1)"
      by (simp add: bit_length_pos)
    then have "(2::nat) ^ bit_length (n div 2) = 2 * 2 ^ (bit_length (n div 2) - 1)"
      by (metis power_Suc)
    with ih have "2 ^ bit_length (n div 2) \<le> n" by arith
    with 1(2) show ?thesis by (simp add: bit_length_pos)
  qed
qed

lemma bit_length_le_iff: "bit_length n \<le> k \<longleftrightarrow> n < 2 ^ k"
proof
  assume "bit_length n \<le> k"
  then have "(2::nat) ^ bit_length n \<le> 2 ^ k" by simp
  with bit_length_upper [of n] show "n < 2 ^ k" by arith
next
  assume lt: "n < 2 ^ k"
  show "bit_length n \<le> k"
  proof (rule ccontr)
    assume "\<not> bit_length n \<le> k"
    then have k: "k \<le> bit_length n - 1" and pos: "0 < bit_length n" by arith+
    from pos have "0 < n" by (cases "n = 0") (simp_all add: bit_length_0)
    from bit_length_lower [OF this] have "2 ^ (bit_length n - 1) \<le> n" .
    moreover from k have "(2::nat) ^ k \<le> 2 ^ (bit_length n - 1)" by simp
    ultimately show False using lt by arith
  qed
qed

lemma round_nat_small: "x < 2 ^ 53 \<Longrightarrow> round_nat x = x"
  by (simp add: round_nat_def bit_length_le_iff)

lemma round_nat_large:
  assumes "2 ^ 53 \<le> x"
  shows "2 ^ 53 \<le> round_nat x"
proof -
  define e where "e = bit_length x - 53"
  from assms have big: "\<not> bit_length x \<le> 53" by (simp add: bit_length_le_iff)
  then have bl: "bit_length x - 1 = 52 + e" by (simp add: e_def)
  from assms have "0 < x" by (metis gr0I not_less zero_less_numeral zero_less_power less_le_trans)
  from bit_length_lower [OF this] bl have "2 ^ (52 + e) \<le> x" by simp
  then have "2 ^ 52 * 2 ^ e \<le> x" by (simp add: power_add)
  then have q: "2 ^ 52 \<le> x div 2 ^ e"
    by (simp add: less_eq_div_iff_mult_less_eq)
  define m where "m = (if 2 ^ (e - 1) < x mod 2 ^ e then x div 2 ^ e + 1
     else if x mod 2 ^ e = 2 ^ (e - 1) then (if (x div 2 ^ e) mod 2 = 1 then x div 2 ^ e + 1 else x div 2 ^ e)
     else x div 2 ^ e)"
  have "x div 2 ^ e \<le> m" by (simp add: m_def)
  with q have m: "2 ^ 52 \<le> m" by arith
  from big have "1 \<le> e" by (simp add: e_def)
  then have "(2::nat) ^ 1 \<le> 2 ^ e" by (rule power_increasing) simp
  with m have "2 ^ 52 * 2 ^ 1 \<le> m * 2 ^ e" by (rule mult_le_mono)
  then have "2 ^ 53 \<le> m * 2 ^ e" by simp
  moreover from big have "round_nat x = m * 2 ^ e"
    by (simp add: round_nat_def Let_def m_def e_def)
  ultimately show ?thesis by simp
qed

lemma round_nat_pos: "0 < x \<Longrightarrow> 0 < round_nat x"
proof (cases "x < 2 ^ 53")
  case True
  assume "0 < x"
  with True show ?thesis by (simp add: round_nat_small)
next
  case False
  with round_nat_large [of x] show ?thesis by simp
qed

lemma round_nat_not_below:
  assumes "x < 2 ^ 53" and "x < y"
  shows "round_nat y \<noteq> x"
proof (cases "y < 2 ^ 53")
  case True
  with assms show ?thesis by (simp add: round_nat_small)
next
  case False
  with round_nat_large [of y] assms show ?thesis by simp
qed

lemma to_number_safe: "\<bar>i\<bar> < 2 ^ 53 \<Longrightarrow> to_number i = i"
  by (auto simp add: to_number_def round_nat_small nat_less_iff)

lemma to_number_negative: "i < 0 \<Longrightarrow> to_number i < 0"
  using round_nat_pos [of "nat (- i)"] by (simp add: to_number_def)

lemma bit_length_eq:
  assumes "2 ^ k \<le> n" and "n < 2 ^ Suc k"
  shows "bit_length n = Suc k"
proof -
  from assms(2) have "bit_length n \<le> Suc k" by (simp only: bit_length_le_iff)
  moreover from assms(1) have "\<not> bit_length n \<le> k" by (simp add: bit_length_le_iff)
  ultimately show ?thesis by arith
qed

lemma round_nat_54:
  assumes "2 ^ 53 \<le> x" and "x < 2 ^ 54"
  shows "round_nat x =
     (if 1 < x mod 2 then x div 2 + 1
      else if x mod 2 = 1 then (if (x div 2) mod 2 = 1 then x div 2 + 1 else x div 2)
      else x div 2) * 2"
proof -
  have "bit_length x = Suc 53" using assms by (intro bit_length_eq) simp_all
  then show ?thesis by (simp add: round_nat_def Let_def)
qed

lemmas round_nat_eval = round_nat_54 round_nat_small

lemma round_nat_two_53: "round_nat (2 ^ 53) = 2 ^ 53"
  by (simp add: round_nat_54)

lemma to_number_exact: "\<bar>i\<bar> \<le> 2 ^ 53 \<Longrightarrow> to_number i = i"
proof (cases "\<bar>i\<bar> < 2 ^ 53")
  case True
  then show ?thesis by (rule to_number_safe)
next
  case False
  assume "\<bar>i\<bar> \<le> 2 ^ 53"
  with False have "i = 2 ^ 53 \<or> i = - (2 ^ 53)" by arith
  with round_nat_two_53 show ?thesis by (auto simp add: to_number_def)
qed

text \<open>
  Rounding leaves a rounded value alone, and it keeps the difference of a clock year and
  a number below \<open>2 ^ 1024\<close>: the result of \<open>subtract\<close> is again a number, which is why
  the infinite results of the host never arise here.
\<close>

lemma round_nat_scaled:
  assumes "m < 2 ^ 53"
  shows "round_nat (m * 2 ^ e) = m * 2 ^ e"
proof (cases "bit_length (m * 2 ^ e) \<le> 53")
  case True
  then show ?thesis by (simp add: round_nat_def)
next
  case False
  define E where "E = bit_length (m * 2 ^ e) - 53"
  from False have E: "bit_length (m * 2 ^ e) = 53 + E" and pos: "0 < E" by (simp_all add: E_def)
  from assms have "m * 2 ^ e < 2 ^ 53 * 2 ^ e" by simp
  then have "m * 2 ^ e < 2 ^ (53 + e)" by (simp add: power_add)
  then have "bit_length (m * 2 ^ e) \<le> 53 + e" by (simp only: bit_length_le_iff)
  with E have "E \<le> e" by simp
  then obtain d where e: "e = E + d" by (auto simp add: le_iff_add)
  have val: "m * 2 ^ e = (m * 2 ^ d) * 2 ^ E" by (simp add: e power_add mult.assoc mult.commute)
  have q: "(m * 2 ^ e) div 2 ^ E = m * 2 ^ d" by (simp add: val)
  have r: "(m * 2 ^ e) mod 2 ^ E = 0" by (simp add: val)
  from pos have half: "(0::nat) < 2 ^ (E - 1)" by simp
  from False half show ?thesis
    unfolding round_nat_def Let_def E_def [symmetric] q r
    by (simp add: val)
qed

lemma round_nat_form:
  assumes "\<not> bit_length x \<le> 53"
  obtains m where "round_nat x = m * 2 ^ (bit_length x - 53)" and "m \<le> 2 ^ 53"
    and "x div 2 ^ (bit_length x - 53) \<le> m" and "m \<le> x div 2 ^ (bit_length x - 53) + 1"
proof -
  define e where "e = bit_length x - 53"
  define q where "q = x div 2 ^ e"
  define m where "m = (if 2 ^ (e - 1) < x mod 2 ^ e then q + 1
     else if x mod 2 ^ e = 2 ^ (e - 1) then (if q mod 2 = 1 then q + 1 else q)
     else q)"
  from assms have bl: "bit_length x = 53 + e" by (simp add: e_def)
  have "x < 2 ^ bit_length x" by (rule bit_length_upper)
  with bl have "x < 2 ^ 53 * 2 ^ e" by (simp add: power_add)
  then have "q < 2 ^ 53" unfolding q_def by (simp add: less_mult_imp_div_less)
  moreover have qm: "q \<le> m" and mq: "m \<le> q + 1" by (simp_all add: m_def)
  ultimately have "m \<le> 2 ^ 53" by arith
  moreover from assms have "round_nat x = m * 2 ^ e"
    by (simp add: round_nat_def Let_def m_def q_def e_def)
  ultimately show ?thesis using that qm mq by (simp add: e_def q_def)
qed

lemma round_nat_idem: "round_nat (round_nat x) = round_nat x"
proof (cases "bit_length x \<le> 53")
  case True
  then show ?thesis by (simp add: round_nat_def)
next
  case False
  then obtain m where r: "round_nat x = m * 2 ^ (bit_length x - 53)" and m: "m \<le> 2 ^ 53"
    by (rule round_nat_form)
  show ?thesis
  proof (cases "m < 2 ^ 53")
    case True
    then show ?thesis unfolding r by (rule round_nat_scaled)
  next
    case False
    with m have "m = 2 ^ 52 * 2" by simp
    then have "round_nat x = 2 ^ 52 * 2 ^ Suc (bit_length x - 53)" by (simp add: r)
    moreover have "round_nat (2 ^ 52 * 2 ^ Suc (bit_length x - 53)) = 2 ^ 52 * 2 ^ Suc (bit_length x - 53)"
      by (rule round_nat_scaled) simp
    ultimately show ?thesis by simp
  qed
qed

lemma to_number_idem: "to_number (to_number i) = to_number i"
proof (cases "i < 0")
  case True
  with round_nat_pos [of "nat (- i)"] show ?thesis by (simp add: to_number_def round_nat_idem)
next
  case False
  then show ?thesis by (simp add: to_number_def round_nat_idem)
qed

lemma round_nat_le_power: "round_nat x \<le> 2 ^ bit_length x"
proof (cases "bit_length x \<le> 53")
  case True
  with bit_length_upper [of x] show ?thesis by (simp add: round_nat_def)
next
  case False
  then obtain m where r: "round_nat x = m * 2 ^ (bit_length x - 53)" and m: "m \<le> 2 ^ 53"
    by (rule round_nat_form)
  from m have "m * 2 ^ (bit_length x - 53) \<le> 2 ^ 53 * 2 ^ (bit_length x - 53)"
    by (rule mult_le_mono1)
  also have "\<dots> = 2 ^ (53 + (bit_length x - 53))" by (simp only: power_add)
  also from False have "53 + (bit_length x - 53) = bit_length x" by simp
  finally show ?thesis by (simp add: r)
qed

lemma round_nat_down:
  assumes "\<not> bit_length x \<le> 53"
    and "x mod 2 ^ (bit_length x - 53) < 2 ^ (bit_length x - 53 - 1)"
  shows "round_nat x = x div 2 ^ (bit_length x - 53) * 2 ^ (bit_length x - 53)"
  using assms by (simp add: round_nat_def Let_def)

lemma bit_length_1024:
  assumes "\<not> bit_length x \<le> 1023" and "x < 2 ^ 1024"
  shows "bit_length x = 1024"
proof -
  from assms(2) have "bit_length x \<le> 1024" by (simp only: bit_length_le_iff)
  with assms(1) show ?thesis by simp
qed

lemma number_le_max:
  assumes "round_nat x = x" and "x < 2 ^ 1024"
  shows "x \<le> 2 ^ 1024 - 2 ^ 971"
proof (cases "bit_length x \<le> 1023")
  case True
  then have "x < 2 ^ 1023" by (simp only: bit_length_le_iff)
  then show ?thesis by simp
next
  case False
  from False assms(2) have bl: "bit_length x = 1024" by (rule bit_length_1024)
  then have "\<not> bit_length x \<le> 53" by simp
  then obtain m where r: "round_nat x = m * 2 ^ (bit_length x - 53)" and m: "m \<le> 2 ^ 53"
    by (rule round_nat_form)
  from r assms(1) bl have x: "x = m * 2 ^ 971" by simp
  have "m \<noteq> 2 ^ 53"
  proof
    assume "m = 2 ^ 53"
    with x have "x = 2 ^ 53 * 2 ^ 971" by simp
    also have "\<dots> = 2 ^ 1024" by (simp only: power_add [symmetric]) simp
    finally show False using assms(2) by simp
  qed
  with m have "m \<le> 2 ^ 53 - 1" by simp
  then have "m * 2 ^ 971 \<le> (2 ^ 53 - 1) * 2 ^ 971" by (rule mult_le_mono1)
  also have "\<dots> = 2 ^ 53 * 2 ^ 971 - 2 ^ 971" by (simp add: diff_mult_distrib)
  also have "(2::nat) ^ 53 * 2 ^ 971 = 2 ^ 1024" by (simp only: power_add [symmetric]) simp
  finally show ?thesis by (simp add: x)
qed

lemma round_nat_le_max:
  assumes "x \<le> 2 ^ 1024 - 2 ^ 971 + 2 ^ 53"
  shows "round_nat x \<le> 2 ^ 1024 - 2 ^ 971"
proof (cases "bit_length x \<le> 1023")
  case True
  then have "(2::nat) ^ bit_length x \<le> 2 ^ 1023" by (intro power_increasing) simp_all
  with round_nat_le_power [of x] have "round_nat x \<le> 2 ^ 1023" by (rule order_trans)
  then show ?thesis by simp
next
  case False
  from assms have lt: "x < 2 ^ 1024" by simp
  from False lt have bl: "bit_length x = 1024" by (rule bit_length_1024)
  then have big: "\<not> bit_length x \<le> 53" by simp
  define q where "q = x div 2 ^ 971"
  have p: "(2::nat) ^ 53 * 2 ^ 971 = 2 ^ 1024" by (simp only: power_add [symmetric]) simp
  from lt have "x < 2 ^ 53 * 2 ^ 971" by (simp only: p)
  then have q: "q < 2 ^ 53" unfolding q_def by (simp add: less_mult_imp_div_less)
  show ?thesis
  proof (cases "q = 2 ^ 53 - 1")
    case True
    have "x = q * 2 ^ 971 + x mod 2 ^ 971" by (simp add: q_def)
    also have "q * 2 ^ 971 = 2 ^ 1024 - 2 ^ 971"
      unfolding True by simp
    finally have "x mod 2 ^ 971 \<le> 2 ^ 53" using assms by simp
    then have "x mod 2 ^ 971 < 2 ^ 970" by simp
    with big bl have "round_nat x = q * 2 ^ 971"
      using round_nat_down [of x] by (simp add: q_def)
    also have "\<dots> = 2 ^ 1024 - 2 ^ 971"
      unfolding True by simp
    finally show ?thesis by simp
  next
    case False
    from big obtain m where r: "round_nat x = m * 2 ^ (bit_length x - 53)"
      and m: "m \<le> x div 2 ^ (bit_length x - 53) + 1"
      by (rule round_nat_form)
    from m bl have "m \<le> q + 1" by (simp add: q_def)
    with q False have "m \<le> 2 ^ 53 - 1" by simp
    then have "m * 2 ^ 971 \<le> (2 ^ 53 - 1) * 2 ^ 971" by (rule mult_le_mono1)
    also have "\<dots> = 2 ^ 1024 - 2 ^ 971" by simp
    finally show ?thesis using r bl by simp
  qed
qed

lemma subtract_is_number:
  assumes "is_number b" and "\<bar>y\<bar> \<le> 2 ^ 53"
  shows "is_number (subtract y b)"
proof -
  from assms(1) have rb: "round_nat (nat \<bar>b\<bar>) = nat \<bar>b\<bar>" and "nat \<bar>b\<bar> < 2 ^ 1024"
    by (auto simp add: is_number_def to_number_def nat_less_iff split: if_splits)
  then have "nat \<bar>b\<bar> \<le> 2 ^ 1024 - 2 ^ 971" by (rule number_le_max)
  with assms(2) have "nat \<bar>y - b\<bar> \<le> 2 ^ 1024 - 2 ^ 971 + 2 ^ 53" by simp
  then have "round_nat (nat \<bar>y - b\<bar>) \<le> 2 ^ 1024 - 2 ^ 971" by (rule round_nat_le_max)
  then have "round_nat (nat \<bar>y - b\<bar>) < 2 ^ 1024" by simp
  moreover have "\<bar>to_number (y - b)\<bar> = int (round_nat (nat \<bar>y - b\<bar>))"
    by (simp add: to_number_def)
  ultimately have "\<bar>to_number (y - b)\<bar> < 2 ^ 1024" by simp
  then show ?thesis by (simp add: is_number_def subtract_def to_number_idem)
qed

section \<open>Printing\<close>

text \<open>
  Digit strings are non-empty, use only the ten digit characters and determine the number
  they print. For a number below \<open>2 ^ 53\<close> the shortest digits that round to it are all
  of its digits, so the host prints it in full; every printed number is non-empty and
  free of blanks, and only a negative one carries a minus sign.
\<close>

lemma digit_char_simps:
  "digit_char 0 = CHR ''0''" "digit_char (Suc 0) = CHR ''1''" "digit_char 1 = CHR ''1''"
  "digit_char 2 = CHR ''2''" "digit_char 3 = CHR ''3''" "digit_char 4 = CHR ''4''" "digit_char 5 = CHR ''5''"
  "digit_char 6 = CHR ''6''" "digit_char 7 = CHR ''7''" "digit_char 8 = CHR ''8''"
  "digit_char 9 = CHR ''9''"
  by (simp_all add: digit_char_def)

lemma digit_char_cases:
  assumes "d < 10"
  shows "d = 0 \<or> d = 1 \<or> d = 2 \<or> d = 3 \<or> d = 4 \<or> d = 5 \<or> d = 6 \<or> d = 7 \<or> d = 8
           \<or> d = (9::nat)"
  using assms by arith

lemma digit_char_in:
  assumes "d < 10"
  shows "digit_char d \<in> set ''0123456789''"
  using digit_char_cases [OF assms]
  by (elim disjE) (simp_all add: digit_char_simps)

lemma digit_char_inj:
  assumes "d < 10" "e < 10" "digit_char d = digit_char e"
  shows "d = e"
  using digit_char_cases [OF assms(1)] digit_char_cases [OF assms(2)] assms(3)
  by (elim disjE) (simp_all add: digit_char_simps)

lemma digits_nonempty: "digits n \<noteq> []"
  by (subst digits.simps) simp

lemma digits_small: "n < 10 \<Longrightarrow> digits n = [digit_char n]"
  by (subst digits.simps) simp

lemma digits_large: "\<not> n < 10 \<Longrightarrow> digits n = digits (n div 10) @ [digit_char (n mod 10)]"
  by (subst digits.simps) simp

lemma digits_chars: "set (digits n) \<subseteq> set ''0123456789''"
proof (induction n rule: digits.induct)
  case (1 n)
  show ?case
  proof (cases "n < 10")
    case True
    then show ?thesis using digit_char_in [of n] by (simp add: digits_small)
  next
    case False
    have "n mod 10 < 10" by simp
    from digit_char_in [OF this] 1 [OF False] False show ?thesis
      by (simp add: digits_large)
  qed
qed

lemma digits_inj: "digits m = digits n \<Longrightarrow> m = n"
proof (induction m arbitrary: n rule: digits.induct)
  case (1 m)
  show ?case
  proof (cases "m < 10")
    case m: True
    show ?thesis
    proof (cases "n < 10")
      case True
      with m 1(2) show ?thesis by (simp add: digits_small digit_char_inj)
    next
      case False
      with m 1(2) digits_nonempty [of "n div 10"] show ?thesis
        by (simp add: digits_small digits_large)
    qed
  next
    case m: False
    show ?thesis
    proof (cases "n < 10")
      case True
      with m 1(2) digits_nonempty [of "m div 10"] show ?thesis
        by (simp add: digits_small digits_large)
    next
      case False
      with m 1(2) have eq: "digits (m div 10) = digits (n div 10)"
        and c: "digit_char (m mod 10) = digit_char (n mod 10)"
        by (simp_all add: digits_large)
      from 1(1) [OF m eq] have "m div 10 = n div 10" .
      moreover from c have "m mod 10 = n mod 10"
        by (rule digit_char_inj [rotated 2]) simp_all
      ultimately show ?thesis by (metis div_mult_mod_eq)
    qed
  qed
qed

lemma digits_no_minus: "CHR ''-'' \<notin> set (digits n)"
  using digits_chars [of n] by auto

lemma digits_no_space: "CHR '' '' \<notin> set (digits n)"
  using digits_chars [of n] by auto

lemma digits_length_le: "0 < m \<Longrightarrow> x < 10 ^ m \<Longrightarrow> length (digits x) \<le> m"
proof (induction x arbitrary: m rule: digits.induct)
  case (1 n)
  show ?case
  proof (cases "n < 10")
    case True
    with 1(2) show ?thesis by (simp add: digits_small Suc_leI)
  next
    case False
    from 1(2) obtain m' where m: "m = Suc m'" by (cases m) auto
    with 1(3) have "n div 10 < 10 ^ m'" by (simp add: less_mult_imp_div_less)
    moreover from False m 1(3) have "0 < m'" by (cases m') auto
    ultimately have "length (digits (n div 10)) \<le> m'" using 1(1) [OF False] by simp
    with False m show ?thesis by (simp add: digits_large)
  qed
qed

lemma digits_upper: "x < 10 ^ length (digits x)"
proof (induction x rule: digits.induct)
  case (1 n)
  show ?case
  proof (cases "n < 10")
    case True
    then show ?thesis by (simp add: digits_small)
  next
    case False
    with 1 have "n div 10 < 10 ^ length (digits (n div 10))" by simp
    then have "n < 10 * 10 ^ length (digits (n div 10))" by arith
    with False show ?thesis by (simp add: digits_large)
  qed
qed

lemma digits_times_ten:
  assumes "0 < s"
  shows "digits (s * 10) = digits s @ ''0''"
proof -
  from assms have "\<not> s * 10 < 10" by arith
  then show ?thesis by (simp add: digits_large digit_char_simps)
qed

lemma digits_shift: "0 < s \<Longrightarrow> digits (s * 10 ^ j) = digits s @ replicate j (CHR ''0'')"
proof (induction j)
  case 0
  then show ?case by simp
next
  case (Suc j)
  from Suc.prems have "0 < s * 10 ^ j" by simp
  from digits_times_ten [OF this] have "digits (s * 10 ^ j * 10) = digits (s * 10 ^ j) @ ''0''" .
  moreover have "s * 10 ^ Suc j = s * 10 ^ j * 10" by simp
  ultimately have "digits (s * 10 ^ Suc j) = digits (s * 10 ^ j) @ ''0''" by (simp only:)
  with Suc show ?case by (simp add: replicate_append_same)
qed

lemma shortest_safe:
  assumes "x < 2 ^ 53"
  shows "fst (shortest x j) * 10 ^ snd (shortest x j) = x"
proof (induction j)
  case 0
  show ?case by (simp add: shortest.simps)
next
  case (Suc j)
  define p :: nat where "p = 10 ^ Suc j"
  define lo where "lo = x div p"
  have p: "0 < p" by (simp add: p_def)
  have below: "lo * p \<le> x" by (simp add: lo_def)
  have "x < (lo + 1) * p" using p by (simp add: lo_def dividend_less_div_times add.commute)
  from round_nat_not_below [OF assms this] have hi: "round_nat ((lo + 1) * p) \<noteq> x" .
  from below assms have "lo * p < 2 ^ 53" by arith
  then have lo: "round_nat (lo * p) = lo * p" by (rule round_nat_small)
  show ?case
  proof (cases "lo * p = x")
    case True
    with hi lo have "shortest x (Suc j) = (lo, Suc j)"
      by (simp add: shortest.simps Let_def p_def [symmetric] lo_def [symmetric] del: power_Suc)
    with True show ?thesis by (simp add: p_def del: power_Suc)
  next
    case False
    with hi lo have "shortest x (Suc j) = shortest x j"
      by (simp add: shortest.simps Let_def p_def [symmetric] lo_def [symmetric] del: power_Suc)
    with Suc show ?thesis by simp
  qed
qed

lemma nat_to_string_safe:
  assumes "x < 2 ^ 53"
  shows "nat_to_string x = digits x"
proof -
  define d where "d = length (digits x)"
  define s where "s = fst (shortest x (d - 1))"
  define j where "j = snd (shortest x (d - 1))"
  from shortest_safe [OF assms, of "d - 1"] have x: "s * 10 ^ j = x" by (simp add: s_def j_def)
  from digits_upper [of x] have "x < 10 ^ d" by (simp add: d_def)
  from round_nat_not_below [OF assms this] have pre: "round_nat (10 ^ d) \<noteq> x" .
  from assms have "x < 10 ^ 16" by simp
  then have "d \<le> 16" unfolding d_def by (rule digits_length_le [rotated]) simp
  then have d21: "d \<le> 21" by simp
  from pre have form: "nat_to_string x = format_digits (digits s) d"
    by (simp add: nat_to_string_def Let_def d_def [symmetric] s_def)
  show ?thesis
  proof (cases "x = 0")
    case True
    then have "d = 1" by (simp add: d_def digits_small)
    with True have "s = 0" by (simp add: s_def shortest.simps)
    with form \<open>d = 1\<close> True show ?thesis by (simp add: format_digits_def digits_small)
  next
    case False
    with x have "0 < s" by (cases "s = 0") auto
    from digits_shift [OF this, of j] x have split: "digits x = digits s @ replicate j (CHR ''0'')"
      by simp
    then have "d = length (digits s) + j" by (simp add: d_def)
    with form d21 split show ?thesis by (simp add: format_digits_def)
  qed
qed

lemma number_to_string_safe: "\<bar>i\<bar> < 2 ^ 53 \<Longrightarrow> number_to_string i = decimal i"
  by (auto simp add: number_to_string_def decimal_def nat_to_string_safe nat_less_iff)

lemma digits_avoid: "c \<notin> set ''0123456789'' \<Longrightarrow> c \<notin> set (digits n)"
  using digits_chars [of n] by blast

lemma format_digits_avoid:
  assumes "ds \<noteq> []" and "c \<notin> set ds" and "c \<notin> set ''0123456789.e+''"
  shows "c \<notin> set (format_digits ds n)"
proof -
  from assms(1,2) have "c \<noteq> hd ds" by (cases ds) auto
  moreover from assms(1,2) have "c \<notin> set (tl ds)" by (cases ds) auto
  moreover from assms(3) have "c \<notin> set (digits (n - 1))" by (intro digits_avoid) simp
  moreover from assms(3) have "c \<noteq> CHR ''0''" and "c \<noteq> CHR ''.''" and "c \<noteq> CHR ''e''"
    and "c \<noteq> CHR ''+''" by simp_all
  ultimately show ?thesis using assms(2) by (simp add: format_digits_def)
qed

lemma format_digits_nonempty: "ds \<noteq> [] \<Longrightarrow> format_digits ds n \<noteq> []"
  by (simp add: format_digits_def)

lemma nat_to_string_avoid:
  assumes "c \<notin> set ''0123456789.e+''"
  shows "c \<notin> set (nat_to_string x)"
proof -
  from assms have d: "c \<notin> set ''0123456789''" by simp
  have one: "c \<notin> set (format_digits ''1'' n)" for n
    using assms by (intro format_digits_avoid) simp_all
  have other: "c \<notin> set (format_digits (digits s) n)" for s n
    using assms by (intro format_digits_avoid digits_nonempty digits_avoid [OF d])
  show ?thesis
  proof (cases "round_nat (10 ^ length (digits x)) = x")
    case True
    with one show ?thesis by (simp add: nat_to_string_def Let_def del: set_simps)
  next
    case False
    with other show ?thesis by (simp add: nat_to_string_def Let_def del: set_simps)
  qed
qed

lemma nat_to_string_nonempty: "nat_to_string x \<noteq> []"
  by (simp add: nat_to_string_def Let_def format_digits_nonempty digits_nonempty)

lemma number_to_string_nonempty: "number_to_string i \<noteq> []"
  by (simp add: number_to_string_def nat_to_string_nonempty)

lemma nat_to_string_no_blank: "CHR '' '' \<notin> set (nat_to_string x)"
  by (rule nat_to_string_avoid) simp

lemma nat_to_string_no_minus: "CHR ''-'' \<notin> set (nat_to_string x)"
  by (rule nat_to_string_avoid) simp

lemma number_to_string_no_blank: "CHR '' '' \<notin> set (number_to_string i)"
  by (simp add: number_to_string_def nat_to_string_no_blank)

lemma number_to_string_negative:
  "i < 0 \<Longrightarrow> number_to_string i = CHR ''-'' # number_to_string (- i)"
  by (simp add: number_to_string_def)

lemma decimal_no_blank: "CHR '' '' \<notin> set (decimal i)"
  by (simp add: decimal_def digits_no_space)

lemma number_to_string_positive_no_minus:
  "CHR ''-'' \<notin> set (number_to_string (- i))" if "i < 0"
  using that by (simp add: number_to_string_def nat_to_string_no_minus)

lemma shortest_skip:
  assumes "round_nat (x div 10 ^ Suc j * 10 ^ Suc j) \<noteq> x"
    and "round_nat ((x div 10 ^ Suc j + 1) * 10 ^ Suc j) \<noteq> x"
  shows "shortest x (Suc j) = shortest x j"
  using assms by (simp add: shortest.simps Let_def del: power_Suc)

lemma shortest_skip_numeral:
  assumes "round_nat (x div 10 ^ numeral k * 10 ^ numeral k) \<noteq> x"
    and "round_nat ((x div 10 ^ numeral k + 1) * 10 ^ numeral k) \<noteq> x"
  shows "shortest x (numeral k) = shortest x (pred_numeral k)"
proof -
  define j where "j = pred_numeral k"
  have k: "numeral k = Suc j" by (simp add: j_def numeral_eq_Suc)
  from assms show ?thesis unfolding k j_def [symmetric] by (rule shortest_skip)
qed

lemma shortest_skip_one:
  assumes "round_nat (x div 10 * 10) \<noteq> x" and "round_nat ((x div 10 + 1) * 10) \<noteq> x"
  shows "shortest x (Suc 0) = shortest x 0"
  using assms shortest_skip [of x 0] by simp

lemmas shortest_eval = shortest_skip_numeral shortest_skip_one shortest.simps(1) round_nat_eval

lemma nat_to_string_two_53: "nat_to_string (2 ^ 53) = digits (2 ^ 53)"
proof -
  have "length (digits 9007199254740992) = 16" by (simp add: digits.simps)
  moreover have "shortest 9007199254740992 15 = (9007199254740992, 0)"
    by (simp add: shortest_eval)
  ultimately show ?thesis
    by (simp add: nat_to_string_def Let_def round_nat_eval format_digits_def)
qed

lemma number_to_string_exact: "\<bar>i\<bar> \<le> 2 ^ 53 \<Longrightarrow> number_to_string i = decimal i"
proof (cases "\<bar>i\<bar> < 2 ^ 53")
  case True
  then show ?thesis by (rule number_to_string_safe)
next
  case False
  assume "\<bar>i\<bar> \<le> 2 ^ 53"
  with False have "i = 2 ^ 53 \<or> i = - (2 ^ 53)" by arith
  with nat_to_string_two_53 show ?thesis
    by (auto simp add: number_to_string_def decimal_def)
qed

section \<open>Reading a line back\<close>

lemma digit_value_digit_char:
  assumes "d < 10"
  shows "digit_value (digit_char d) = d"
  using digit_char_cases [OF assms]
  by (elim disjE) (simp_all add: digit_char_simps digit_value_def)

lemma digits_value_snoc: "digits_value (s @ [c]) = 10 * digits_value s + digit_value c"
  by (simp add: digits_value_def)

lemma digits_value_digits: "digits_value (digits n) = n"
proof (induction n rule: digits.induct)
  case (1 n)
  show ?case
  proof (cases "n < 10")
    case True
    then show ?thesis by (simp add: digits_small digits_value_def digit_value_digit_char)
  next
    case False
    with 1 have "digits_value (digits (n div 10)) = n div 10" by simp
    with False show ?thesis
      by (simp add: digits_large digits_value_snoc digit_value_digit_char)
  qed
qed

lemma decimal_value_decimal: "decimal_value (decimal i) = i"
proof (cases "i < 0")
  case True
  then show ?thesis by (simp add: decimal_def decimal_value_def digits_value_digits)
next
  case False
  obtain c cs where d: "digits (nat i) = c # cs"
    using digits_nonempty [of "nat i"] by (cases "digits (nat i)") auto
  with digits_no_minus [of "nat i"] have "c \<noteq> CHR ''-''" by auto
  with False d digits_value_digits [of "nat i"] show ?thesis
    by (simp add: decimal_def decimal_value_def)
qed

lemma split_blank_word: "CHR '' '' \<notin> set u \<Longrightarrow> split_blank w u = [w @ u]"
  by (induction u arbitrary: w) auto

lemma split_blank_blank:
  "CHR '' '' \<notin> set u \<Longrightarrow> split_blank w (u @ CHR '' '' # r) = (w @ u) # split_blank [] r"
  by (induction u arbitrary: w) auto

lemma words_age_line:
  assumes "CHR '' '' \<notin> set ys" and "CHR '' '' \<notin> set as"
  shows "words (''Now '' @ ys @ '' and you become '' @ as @ '' years old.'')
       = [''Now'', ys, ''and'', ''you'', ''become'', as, ''years'', ''old.'']"
proof -
  have "words (''Now '' @ ys @ '' and you become '' @ as @ '' years old.'')
      = ''Now'' # split_blank [] (ys @ CHR '' '' # (''and you become '' @ as @ '' years old.''))"
    by (simp add: words_def)
  also have "\<dots> = ''Now'' # ys # split_blank [] (''and you become '' @ as @ '' years old.'')"
    by (simp only: split_blank_blank [OF assms(1)] append_Nil)
  also have "split_blank [] (''and you become '' @ as @ '' years old.'')
      = ''and'' # ''you'' # ''become'' # split_blank [] (as @ CHR '' '' # ''years old.'')"
    by simp
  also have "split_blank [] (as @ CHR '' '' # ''years old.'') = as # split_blank [] ''years old.''"
    by (simp only: split_blank_blank [OF assms(2)] append_Nil)
  also have "split_blank [] ''years old.'' = [''years'', ''old.'']"
    by simp
  finally show ?thesis .
qed

lemma decimal_value_number_to_string:
  "\<bar>i\<bar> \<le> 2 ^ 53 \<Longrightarrow> decimal_value (number_to_string i) = i"
  by (simp add: number_to_string_exact decimal_value_decimal)

section \<open>What a render pass shows\<close>

lemma Greeting_tree:
  "Greeting now props =
     View [wrapper]
       [Text [textStyle] [Str ''Hello, '', Str (name props)],
        Text [textStyle] [Str ''Nice to meet you!''],
        Text [textStyle, ageTextStyle]
          [Str ''Now '', Num (getFullYear now), Str '' and you become '',
           Num (subtract (getFullYear now) (birthYear props)), Str '' years old.'']]"
  by (simp add: Greeting_def Let_def)

lemma text_lines_Greeting:
  "text_lines (Greeting now props) =
     [''Hello, '' @ name props,
      ''Nice to meet you!'',
      ''Now '' @ number_to_string (getFullYear now) @ '' and you become '' @
        number_to_string (subtract (getFullYear now) (birthYear props)) @ '' years old.'']"
  by (simp add: Greeting_tree)

lemma numbers_Greeting:
  "numbers (Greeting now props) =
     [[], [], [getFullYear now, subtract (getFullYear now) (birthYear props)]]"
  by (simp add: Greeting_tree)

lemma words_Greeting:
  "words (text_lines (Greeting now props) ! 2) =
     [''Now'', number_to_string (getFullYear now), ''and'', ''you'', ''become'',
      number_to_string (subtract (getFullYear now) (birthYear props)), ''years'', ''old.'']"
  using words_age_line [OF number_to_string_no_blank number_to_string_no_blank]
  by (simp add: text_lines_Greeting)

lemma subtract_exact: "\<bar>a - b\<bar> \<le> 2 ^ 53 \<Longrightarrow> subtract a b = a - b"
  by (simp add: subtract_def to_number_exact)

lemma subtract_negative: "a < b \<Longrightarrow> subtract a b < 0"
  by (simp add: subtract_def to_number_negative)

lemmas decimal_eval = decimal_def digits.simps digit_char_simps

lemmas decimal_value_eval = decimal_value_def digits_value_def digit_value_def

text \<open>One rounded difference, and how it is printed.\<close>

lemma subtract_rounds_up: "subtract 2024 (- 9007199254740991) = 9007199254743016"
  by (simp add: subtract_def to_number_def round_nat_eval)

lemma number_to_string_rounded: "number_to_string 9007199254743016 = ''9007199254743016''"
proof -
  have "length (digits 9007199254743016) = 16" by (simp add: digits.simps)
  moreover have "shortest 9007199254743016 15 = (9007199254743016, 0)"
    by (simp add: shortest_eval)
  ultimately have "nat_to_string 9007199254743016 = digits 9007199254743016"
    by (simp add: nat_to_string_def Let_def round_nat_eval format_digits_def)
  then show ?thesis by (simp add: number_to_string_def digits.simps digit_char_simps)
qed

lemma is_number_small: "\<bar>i\<bar> < 2 ^ 53 \<Longrightarrow> is_number i"
  by (simp add: is_number_def to_number_safe)

section \<open>The claims of the specification\<close>

text \<open>
  Claim C1, as stated, fails: for every name and every integer birth year the rendered
  age should be the current year minus the birth year. With birth year
  \<open>-9007199254740991\<close>, which is a number, and a clock in 2024 the difference
  \<open>9007199254743015\<close> does not fit 53 bits, and the age the component embeds and
  prints is the rounded \<open>9007199254743016\<close>.
\<close>
theorem Greeting_age_rounded_counterexample:
  "is_number (- 9007199254740991)
   \<and> numbers (Greeting \<lparr>getFullYear = 2024, getMonth = 5, getDate = 15, getHours = 12,
          getMinutes = 0, getSeconds = 0, getMilliseconds = 0\<rparr>
        \<lparr>name = ''Jane'', birthYear = - 9007199254740991\<rparr>) ! 2 ! 1 = 9007199254743016
   \<and> numbers (Greeting \<lparr>getFullYear = 2024, getMonth = 5, getDate = 15, getHours = 12,
          getMinutes = 0, getSeconds = 0, getMilliseconds = 0\<rparr>
        \<lparr>name = ''Jane'', birthYear = - 9007199254740991\<rparr>) ! 2 ! 1
       \<noteq> getFullYear \<lparr>getFullYear = 2024, getMonth = 5, getDate = 15, getHours = 12,
            getMinutes = 0, getSeconds = 0, getMilliseconds = 0\<rparr>
          - birthYear \<lparr>name = ''Jane'', birthYear = - 9007199254740991\<rparr>
   \<and> words (text_lines (Greeting \<lparr>getFullYear = 2024, getMonth = 5, getDate = 15,
          getHours = 12, getMinutes = 0, getSeconds = 0, getMilliseconds = 0\<rparr>
        \<lparr>name = ''Jane'', birthYear = - 9007199254740991\<rparr>) ! 2) ! 5 = ''9007199254743016''"
  by (simp add: numbers_Greeting words_Greeting subtract_rounds_up number_to_string_rounded
      is_number_small)

text \<open>
  Claim C1, amended. For every name and every integer birth year that is a number and
  whose distance from the current year is at most \<open>2 ^ 53\<close>, the age embedded in the
  third text node is the year read from the clock in that pass minus the birth year, the
  sixth word of the third line is that difference written out in full, and reading the
  word back gives the difference.
\<close>
theorem Greeting_age_exact_within_2_53:
  assumes "is_number b" and "\<bar>getFullYear now - b\<bar> \<le> 2 ^ 53"
  shows "numbers (Greeting now \<lparr>name = n, birthYear = b\<rparr>) ! 2 ! 1 = getFullYear now - b
       \<and> words (text_lines (Greeting now \<lparr>name = n, birthYear = b\<rparr>) ! 2) ! 5
           = decimal (getFullYear now - b)
       \<and> decimal_value (words (text_lines (Greeting now \<lparr>name = n, birthYear = b\<rparr>) ! 2) ! 5)
           = getFullYear now - b"
  using assms
  by (simp add: numbers_Greeting words_Greeting subtract_exact number_to_string_exact
      decimal_value_decimal)

theorem Greeting_age_exact_within_2_53_witness:
  "is_number 1995
   \<and> \<bar>getFullYear \<lparr>getFullYear = 2024, getMonth = 5, getDate = 15, getHours = 12, getMinutes = 0,
        getSeconds = 0, getMilliseconds = 0\<rparr> - 1995\<bar> \<le> 2 ^ 53
   \<and> numbers (Greeting \<lparr>getFullYear = 2024, getMonth = 5, getDate = 15, getHours = 12,
          getMinutes = 0, getSeconds = 0, getMilliseconds = 0\<rparr>
        \<lparr>name = ''Jane'', birthYear = 1995\<rparr>) ! 2 ! 1 = 29
   \<and> words (text_lines (Greeting \<lparr>getFullYear = 2024, getMonth = 5, getDate = 15, getHours = 12,
          getMinutes = 0, getSeconds = 0, getMilliseconds = 0\<rparr>
        \<lparr>name = ''Jane'', birthYear = 1995\<rparr>) ! 2) ! 5 = ''29''"
proof -
  let ?d = "\<lparr>getFullYear = 2024, getMonth = 5, getDate = 15, getHours = 12, getMinutes = 0,
      getSeconds = 0, getMilliseconds = 0\<rparr>"
  have number: "is_number 1995" by (simp add: is_number_small)
  have near: "\<bar>getFullYear ?d - 1995\<bar> \<le> 2 ^ 53" by simp
  from Greeting_age_exact_within_2_53 [OF number near, of "''Jane''"] number near
  show ?thesis by (simp add: decimal_eval)
qed

text \<open>
  Claim C2. With name \<open>Jane\<close>, birth year 1995 and a clock whose year is 2024 (any
  month, day and time), the three lines are \<open>Hello, Jane\<close>, \<open>Nice to meet you!\<close> and
  \<open>Now 2024 and you become 29 years old.\<close>
\<close>
theorem Greeting_Jane_1995_in_2024:
  "text_lines (Greeting (now\<lparr>getFullYear := 2024\<rparr>) \<lparr>name = ''Jane'', birthYear = 1995\<rparr>) =
     [''Hello, Jane'', ''Nice to meet you!'', ''Now 2024 and you become 29 years old.'']"
  by (simp add: text_lines_Greeting subtract_exact number_to_string_exact decimal_eval)

text \<open>
  Claim C3. Two render passes with the same props whose clock readings fall in the same
  calendar year return the same element, hence the same text.
\<close>
theorem Greeting_same_year_same_output:
  assumes "getFullYear d1 = getFullYear d2"
  shows "Greeting d1 props = Greeting d2 props
       \<and> text_lines (Greeting d1 props) = text_lines (Greeting d2 props)"
  using assms by (simp add: Greeting_def)

theorem Greeting_same_year_same_output_witness:
  "getFullYear \<lparr>getFullYear = 2024, getMonth = 0, getDate = 1, getHours = 0, getMinutes = 0,
      getSeconds = 0, getMilliseconds = 0\<rparr>
   = getFullYear \<lparr>getFullYear = 2024, getMonth = 11, getDate = 31, getHours = 23, getMinutes = 59,
      getSeconds = 59, getMilliseconds = 999\<rparr>
   \<and> text_lines (Greeting \<lparr>getFullYear = 2024, getMonth = 0, getDate = 1, getHours = 0,
          getMinutes = 0, getSeconds = 0, getMilliseconds = 0\<rparr> \<lparr>name = ''Jane'', birthYear = 1995\<rparr>)
     = text_lines (Greeting \<lparr>getFullYear = 2024, getMonth = 11, getDate = 31, getHours = 23,
          getMinutes = 59, getSeconds = 59, getMilliseconds = 999\<rparr> \<lparr>name = ''Jane'', birthYear = 1995\<rparr>)
   \<and> text_lines (Greeting \<lparr>getFullYear = 2024, getMonth = 11, getDate = 31, getHours = 23,
          getMinutes = 59, getSeconds = 59, getMilliseconds = 999\<rparr> \<lparr>name = ''Jane'', birthYear = 1995\<rparr>)
     = [''Hello, Jane'', ''Nice to meet you!'', ''Now 2024 and you become 29 years old.'']"
proof -
  let ?d1 = "\<lparr>getFullYear = 2024, getMonth = 0, getDate = 1, getHours = 0, getMinutes = 0,
      getSeconds = 0, getMilliseconds = 0\<rparr>"
  let ?d2 = "\<lparr>getFullYear = 2024, getMonth = 11, getDate = 31, getHours = 23, getMinutes = 59,
      getSeconds = 59, getMilliseconds = 999\<rparr>"
  have same: "getFullYear ?d1 = getFullYear ?d2" by simp
  from Greeting_same_year_same_output [OF same, of "\<lparr>name = ''Jane'', birthYear = 1995\<rparr>"]
  show ?thesis
    by (simp add: text_lines_Greeting subtract_exact number_to_string_exact decimal_eval)
qed

text \<open>
  Claim C4. A birth year after the current year takes the same path as every other
  input: the component returns its usual three text nodes, the age it computes and
  embeds is negative, and the age word of the third line is a minus sign followed by
  the printed magnitude, which is not empty and has no further sign. The component has
  no failing branch, so a result is always returned.
\<close>
theorem Greeting_future_birthYear_negative_age:
  assumes "getFullYear now < birthYear props"
  shows "Greeting now props =
           View [wrapper]
             [Text [textStyle] [Str ''Hello, '', Str (name props)],
              Text [textStyle] [Str ''Nice to meet you!''],
              Text [textStyle, ageTextStyle]
                [Str ''Now '', Num (getFullYear now), Str '' and you become '',
                 Num (subtract (getFullYear now) (birthYear props)), Str '' years old.'']]
       \<and> subtract (getFullYear now) (birthYear props) < 0
       \<and> numbers (Greeting now props) ! 2 ! 1 < 0
       \<and> words (text_lines (Greeting now props) ! 2) ! 5 =
           CHR ''-'' # number_to_string (- subtract (getFullYear now) (birthYear props))
       \<and> number_to_string (- subtract (getFullYear now) (birthYear props)) \<noteq> []
       \<and> CHR ''-'' \<notin> set (number_to_string (- subtract (getFullYear now) (birthYear props)))"
proof -
  from assms have neg: "subtract (getFullYear now) (birthYear props) < 0"
    by (rule subtract_negative)
  from neg have "CHR ''-'' \<notin> set (number_to_string (- subtract (getFullYear now) (birthYear props)))"
    by (rule number_to_string_positive_no_minus)
  with neg show ?thesis
    by (simp add: Greeting_tree [symmetric] numbers_Greeting words_Greeting
        number_to_string_negative number_to_string_nonempty)
qed

theorem Greeting_future_birthYear_negative_age_witness:
  "getFullYear \<lparr>getFullYear = 2024, getMonth = 5, getDate = 15, getHours = 12, getMinutes = 0,
      getSeconds = 0, getMilliseconds = 0\<rparr> < birthYear \<lparr>name = ''Sam'', birthYear = 2030\<rparr>
   \<and> numbers (Greeting \<lparr>getFullYear = 2024, getMonth = 5, getDate = 15, getHours = 12,
          getMinutes = 0, getSeconds = 0, getMilliseconds = 0\<rparr> \<lparr>name = ''Sam'', birthYear = 2030\<rparr>) ! 2 ! 1
     = - 6
   \<and> text_lines (Greeting \<lparr>getFullYear = 2024, getMonth = 5, getDate = 15, getHours = 12,
          getMinutes = 0, getSeconds = 0, getMilliseconds = 0\<rparr> \<lparr>name = ''Sam'', birthYear = 2030\<rparr>) ! 2
     = ''Now 2024 and you become -6 years old.''"
proof -
  let ?d = "\<lparr>getFullYear = 2024, getMonth = 5, getDate = 15, getHours = 12, getMinutes = 0,
      getSeconds = 0, getMilliseconds = 0\<rparr>"
  let ?p = "\<lparr>name = ''Sam'', birthYear = 2030\<rparr>"
  have future: "getFullYear ?d < birthYear ?p" by simp
  from Greeting_future_birthYear_negative_age [OF future] future
  show ?thesis
    by (simp add: text_lines_Greeting numbers_Greeting subtract_exact number_to_string_exact
        decimal_eval)
qed

text \<open>
  Claim C5. When the birth year is the current year the embedded age is 0 and the third
  line prints \<open>0\<close>.
\<close>
theorem Greeting_birthYear_this_year_age_zero:
  assumes "birthYear props = getFullYear now"
  shows "numbers (Greeting now props) ! 2 = [getFullYear now, 0]
       \<and> text_lines (Greeting now props) ! 2 =
           ''Now '' @ number_to_string (getFullYear now) @ '' and you become 0 years old.''"
  using assms
  by (simp add: numbers_Greeting text_lines_Greeting subtract_exact number_to_string_exact
      decimal_eval)

theorem Greeting_birthYear_this_year_age_zero_witness:
  "birthYear \<lparr>name = ''Ada'', birthYear = 2024\<rparr>
     = getFullYear \<lparr>getFullYear = 2024, getMonth = 5, getDate = 15, getHours = 12, getMinutes = 0,
         getSeconds = 0, getMilliseconds = 0\<rparr>
   \<and> text_lines (Greeting \<lparr>getFullYear = 2024, getMonth = 5, getDate = 15, getHours = 12,
          getMinutes = 0, getSeconds = 0, getMilliseconds = 0\<rparr> \<lparr>name = ''Ada'', birthYear = 2024\<rparr>) ! 2
     = ''Now 2024 and you become 0 years old.''"
proof -
  let ?d = "\<lparr>getFullYear = 2024, getMonth = 5, getDate = 15, getHours = 12, getMinutes = 0,
      getSeconds = 0, getMilliseconds = 0\<rparr>"
  let ?p = "\<lparr>name = ''Ada'', birthYear = 2024\<rparr>"
  have this_year: "birthYear ?p = getFullYear ?d" by simp
  from Greeting_birthYear_this_year_age_zero [OF this_year] this_year
  show ?thesis by (simp add: number_to_string_exact decimal_eval)
qed

text \<open>
  Claim C6. With the empty name, birth year 2000 and a clock whose year is 2024, the
  first line is \<open>Hello, \<close> followed by nothing, and the age shown is 24.
\<close>
theorem Greeting_empty_name_2000_in_2024:
  "text_lines (Greeting (now\<lparr>getFullYear := 2024\<rparr>) \<lparr>name = [], birthYear = 2000\<rparr>) =
     [''Hello, '', ''Nice to meet you!'', ''Now 2024 and you become 24 years old.'']
   \<and> numbers (Greeting (now\<lparr>getFullYear := 2024\<rparr>) \<lparr>name = [], birthYear = 2000\<rparr>) ! 2
       = [2024, 24]"
  by (simp add: text_lines_Greeting numbers_Greeting subtract_exact number_to_string_exact
      decimal_eval)

text \<open>
  Claim C7. \<open>App\<close> takes no argument and reads no state: in every render pass, whatever
  the clock reading, it hands \<open>Greeting\<close> the props \<open>name = Jane\<close>, \<open>birthYear = 1995\<close>
  and nothing else, and the text on screen is that of this one \<open>Greeting\<close>.
\<close>
theorem App_renders_Greeting_Jane_1995:
  "greeting_inputs App = [\<lparr>name = ''Jane'', birthYear = 1995\<rparr>]
   \<and> render now App =
       View [container] [Greeting now \<lparr>name = ''Jane'', birthYear = 1995\<rparr>, StatusBar ''light'']
   \<and> text_lines (render now App) =
       text_lines (Greeting now \<lparr>name = ''Jane'', birthYear = 1995\<rparr>)"
  by (simp add: App_def)

text \<open>
  Claim C8. For every input the component returns one view of three text nodes: the
  first holds \<open>Hello, \<close> and the name, the second the constant \<open>Nice to meet you!\<close>, the
  third the sentence with the current year and the computed age as its two number
  children. On screen these are exactly three lines, and in the third both numbers
  appear as non-empty words, the year second and the age sixth.
\<close>
theorem Greeting_three_text_lines:
  "Greeting now \<lparr>name = n, birthYear = b\<rparr> =
     View [wrapper]
       [Text [textStyle] [Str ''Hello, '', Str n],
        Text [textStyle] [Str ''Nice to meet you!''],
        Text [textStyle, ageTextStyle]
          [Str ''Now '', Num (getFullYear now), Str '' and you become '',
           Num (subtract (getFullYear now) b), Str '' years old.'']]
   \<and> length (text_lines (Greeting now \<lparr>name = n, birthYear = b\<rparr>)) = 3
   \<and> text_lines (Greeting now \<lparr>name = n, birthYear = b\<rparr>) ! 0 = ''Hello, '' @ n
   \<and> text_lines (Greeting now \<lparr>name = n, birthYear = b\<rparr>) ! 1 = ''Nice to meet you!''
   \<and> words (text_lines (Greeting now \<lparr>name = n, birthYear = b\<rparr>) ! 2) =
       [''Now'', number_to_string (getFullYear now), ''and'', ''you'', ''become'',
        number_to_string (subtract (getFullYear now) b), ''years'', ''old.'']
   \<and> number_to_string (getFullYear now) \<noteq> []
   \<and> number_to_string (subtract (getFullYear now) b) \<noteq> []"
proof -
  let ?p = "\<lparr>name = n, birthYear = b\<rparr>"
  have tree: "Greeting now ?p =
     View [wrapper]
       [Text [textStyle] [Str ''Hello, '', Str n],
        Text [textStyle] [Str ''Nice to meet you!''],
        Text [textStyle, ageTextStyle]
          [Str ''Now '', Num (getFullYear now), Str '' and you become '',
           Num (subtract (getFullYear now) b), Str '' years old.'']]"
    using Greeting_tree [of now ?p] by simp
  have lines: "length (text_lines (Greeting now ?p)) = 3
      \<and> text_lines (Greeting now ?p) ! 0 = ''Hello, '' @ n
      \<and> text_lines (Greeting now ?p) ! 1 = ''Nice to meet you!''"
    by (simp add: text_lines_Greeting)
  have third: "words (text_lines (Greeting now ?p) ! 2) =
       [''Now'', number_to_string (getFullYear now), ''and'', ''you'', ''become'',
        number_to_string (subtract (getFullYear now) b), ''years'', ''old.'']"
    using words_Greeting [of now ?p] by simp
  from tree lines third number_to_string_nonempty [of "getFullYear now"]
    number_to_string_nonempty [of "subtract (getFullYear now) b"]
  show ?thesis by blast
qed

text \<open>
  Claim C9, as stated, fails: in every output the year shown minus the age shown should
  be the birth year. With birth year \<open>-9007199254740991\<close>, a number, and a clock in
  2024 the third line reads \<open>Now 2024 and you become 9007199254743016 years old.\<close>, and
  2024 minus that age is \<open>-9007199254740992\<close>.
\<close>
theorem Greeting_displayed_difference_counterexample:
  "is_number (birthYear \<lparr>name = ''Jane'', birthYear = - 9007199254740991\<rparr>)
   \<and> text_lines (Greeting \<lparr>getFullYear = 2024, getMonth = 5, getDate = 15, getHours = 12,
       getMinutes = 0, getSeconds = 0, getMilliseconds = 0\<rparr>
     \<lparr>name = ''Jane'', birthYear = - 9007199254740991\<rparr>) ! 2
     = ''Now 2024 and you become 9007199254743016 years old.''
   \<and> decimal_value (words ''Now 2024 and you become 9007199254743016 years old.'' ! 1)
       - decimal_value (words ''Now 2024 and you become 9007199254743016 years old.'' ! 5)
     = - 9007199254740992
   \<and> decimal_value (words ''Now 2024 and you become 9007199254743016 years old.'' ! 1)
       - decimal_value (words ''Now 2024 and you become 9007199254743016 years old.'' ! 5)
     \<noteq> birthYear \<lparr>name = ''Jane'', birthYear = - 9007199254740991\<rparr>"
proof -
  have line: "text_lines (Greeting \<lparr>getFullYear = 2024, getMonth = 5, getDate = 15, getHours = 12,
       getMinutes = 0, getSeconds = 0, getMilliseconds = 0\<rparr>
     \<lparr>name = ''Jane'', birthYear = - 9007199254740991\<rparr>) ! 2
     = ''Now 2024 and you become 9007199254743016 years old.''"
    by (simp add: text_lines_Greeting subtract_rounds_up number_to_string_rounded
        number_to_string_exact decimal_eval)
  have "words ''Now 2024 and you become 9007199254743016 years old.''
      = [''Now'', ''2024'', ''and'', ''you'', ''become'', ''9007199254743016'', ''years'', ''old.'']"
    by (simp add: words_def)
  then have "decimal_value (words ''Now 2024 and you become 9007199254743016 years old.'' ! 1)
       - decimal_value (words ''Now 2024 and you become 9007199254743016 years old.'' ! 5)
     = - 9007199254740992"
    by (simp add: decimal_value_eval)
  moreover have "is_number (- 9007199254740991)"
    by (simp add: is_number_small)
  ultimately show ?thesis using line by simp
qed

text \<open>
  Claim C9, amended. When the birth year is a number and the current year and its
  distance from the birth year are at most \<open>2 ^ 53\<close> in magnitude (a clock year always
  is), the year read off the third line minus the age read off the third line is the
  birth year given as input, and the two values read are the two numbers the component
  embedded from its single clock reading.
\<close>
theorem Greeting_displayed_year_minus_age:
  assumes "is_number (birthYear props)"
    and "\<bar>getFullYear now\<bar> \<le> 2 ^ 53"
    and "\<bar>getFullYear now - birthYear props\<bar> \<le> 2 ^ 53"
  shows "decimal_value (words (text_lines (Greeting now props) ! 2) ! 1)
           - decimal_value (words (text_lines (Greeting now props) ! 2) ! 5)
         = birthYear props
       \<and> numbers (Greeting now props) ! 2 =
           [decimal_value (words (text_lines (Greeting now props) ! 2) ! 1),
            decimal_value (words (text_lines (Greeting now props) ! 2) ! 5)]"
  using assms
  by (simp add: words_Greeting numbers_Greeting subtract_exact decimal_value_number_to_string)

theorem Greeting_displayed_year_minus_age_witness:
  "is_number (birthYear \<lparr>name = ''Jane'', birthYear = 1995\<rparr>)
   \<and> \<bar>getFullYear \<lparr>getFullYear = 2024, getMonth = 5, getDate = 15, getHours = 12, getMinutes = 0,
        getSeconds = 0, getMilliseconds = 0\<rparr>\<bar> \<le> 2 ^ 53
   \<and> \<bar>getFullYear \<lparr>getFullYear = 2024, getMonth = 5, getDate = 15, getHours = 12, getMinutes = 0,
        getSeconds = 0, getMilliseconds = 0\<rparr> - birthYear \<lparr>name = ''Jane'', birthYear = 1995\<rparr>\<bar>
       \<le> 2 ^ 53
   \<and> numbers (Greeting \<lparr>getFullYear = 2024, getMonth = 5, getDate = 15, getHours = 12,
          getMinutes = 0, getSeconds = 0, getMilliseconds = 0\<rparr> \<lparr>name = ''Jane'', birthYear = 1995\<rparr>) ! 2
       = [2024, 29]
   \<and> decimal_value (words (text_lines (Greeting \<lparr>getFullYear = 2024, getMonth = 5, getDate = 15,
          getHours = 12, getMinutes = 0, getSeconds = 0, getMilliseconds = 0\<rparr>
          \<lparr>name = ''Jane'', birthYear = 1995\<rparr>) ! 2) ! 1)
     - decimal_value (words (text_lines (Greeting \<lparr>getFullYear = 2024, getMonth = 5, getDate = 15,
          getHours = 12, getMinutes = 0, getSeconds = 0, getMilliseconds = 0\<rparr>
          \<lparr>name = ''Jane'', birthYear = 1995\<rparr>) ! 2) ! 5)
     = 1995"
proof -
  let ?d = "\<lparr>getFullYear = 2024, getMonth = 5, getDate = 15, getHours = 12, getMinutes = 0,
      getSeconds = 0, getMilliseconds = 0\<rparr>"
  let ?p = "\<lparr>name = ''Jane'', birthYear = 1995\<rparr>"
  have number: "is_number (birthYear ?p)" by (simp add: is_number_small)
  have year: "\<bar>getFullYear ?d\<bar> \<le> 2 ^ 53" by simp
  have near: "\<bar>getFullYear ?d - birthYear ?p\<bar> \<le> 2 ^ 53" by simp
  from Greeting_displayed_year_minus_age [OF number year near] number year near
  show ?thesis by (simp add: numbers_Greeting subtract_exact)
qed

text \<open>
  Claim C10. Two renders in the same current year with the same birth year agree on
  lines two and three whatever the names are; two renders with the same name agree on
  lines one and two whatever the birth years (and the clock readings) are.
\<close>
theorem Greeting_lines_depend_on:
  "(getFullYear d1 = getFullYear d2 \<and> birthYear p1 = birthYear p2 \<longrightarrow>
      text_lines (Greeting d1 p1) ! 1 = text_lines (Greeting d2 p2) ! 1
    \<and> text_lines (Greeting d1 p1) ! 2 = text_lines (Greeting d2 p2) ! 2)
   \<and> (name p1 = name p2 \<longrightarrow>
      text_lines (Greeting d1 p1) ! 0 = text_lines (Greeting d2 p2) ! 0
    \<and> text_lines (Greeting d1 p1) ! 1 = text_lines (Greeting d2 p2) ! 1)"
  by (simp add: text_lines_Greeting)

theorem Greeting_lines_depend_on_witness:
  "text_lines (Greeting \<lparr>getFullYear = 2024, getMonth = 5, getDate = 15, getHours = 12,
       getMinutes = 0, getSeconds = 0, getMilliseconds = 0\<rparr> \<lparr>name = ''Jane'', birthYear = 1995\<rparr>) ! 2
   = text_lines (Greeting \<lparr>getFullYear = 2024, getMonth = 5, getDate = 15, getHours = 12,
       getMinutes = 0, getSeconds = 0, getMilliseconds = 0\<rparr> \<lparr>name = ''Sam'', birthYear = 1995\<rparr>) ! 2
   \<and> text_lines (Greeting \<lparr>getFullYear = 2024, getMonth = 5, getDate = 15, getHours = 12,
       getMinutes = 0, getSeconds = 0, getMilliseconds = 0\<rparr> \<lparr>name = ''Jane'', birthYear = 1995\<rparr>) ! 0
   = text_lines (Greeting \<lparr>getFullYear = 2024, getMonth = 5, getDate = 15, getHours = 12,
       getMinutes = 0, getSeconds = 0, getMilliseconds = 0\<rparr> \<lparr>name = ''Jane'', birthYear = 2030\<rparr>) ! 0"
proof -
  let ?d = "\<lparr>getFullYear = 2024, getMonth = 5, getDate = 15, getHours = 12, getMinutes = 0,
      getSeconds = 0, getMilliseconds = 0\<rparr>"
  let ?jane = "\<lparr>name = ''Jane'', birthYear = 1995\<rparr>"
  let ?sam = "\<lparr>name = ''Sam'', birthYear = 1995\<rparr>"
  let ?jane' = "\<lparr>name = ''Jane'', birthYear = 2030\<rparr>"
  have year: "getFullYear ?d = getFullYear ?d \<and> birthYear ?jane = birthYear ?sam" by simp
  have nm: "name ?jane = name ?jane'" by simp
  from Greeting_lines_depend_on [of ?d ?d ?jane ?sam] year
  have "text_lines (Greeting ?d ?jane) ! 2 = text_lines (Greeting ?d ?sam) ! 2" by blast
  moreover from Greeting_lines_depend_on [of ?d ?d ?jane ?jane'] nm
  have "text_lines (Greeting ?d ?jane) ! 0 = text_lines (Greeting ?d ?jane') ! 0" by blast
  ultimately show ?thesis by blast
qed

end
